theory Spec2Isabelle
  imports Complex_Main
begin

section \<open>The local Codewind manager (LocalCodewindManager.ts)\<close>

text \<open>
  A shallow embedding of the class \<open>LocalCodewindManager\<close>. The manager holds two
  fields, \<open>_localConnection\<close> and \<open>_state\<close>. Every method reaches the outside
  world only through collaborators (\<open>CLILifecycleWrapper\<close>, \<open>ConnectionManager\<close>,
  \<open>Requester\<close>, \<open>vscode.window\<close>, \<open>Log\<close>, \<open>CodewindEventListener\<close>); each call
  to one of them is recorded, in program order, in a trace kept beside the two fields,
  and what a collaborator answers is an argument of the code that receives the answer.
  Modelled from the spec: the collaborators are imported, none of them is part of this
  file; each is taken by its interface, a call that answers a value or throws, and that
  leaves the two fields of the manager alone.

  The methods are asynchronous. \<open>connect\<close>, \<open>startCodewind\<close>, \<open>stopCodewind\<close>
  and \<open>refresh\<close> are modelled twice. Once as a function that runs the method from
  its call to its return with nothing else running in between, which is what a caller
  sees who awaits each call before the next. And once cut at its \<open>await\<close>s into the
  pieces that run without interruption, so that what is left pending at a return, and
  every way the pieces of several calls can follow one another, can be stated.
  \<open>waitForCodewindToStartTheia\<close> is modelled by its pieces and by its poll session,
  in which the ticks of the interval and the answers of the probes are separate events.
\<close>

subsection \<open>Data\<close>

text \<open>
  Modelled from the spec: the enum \<open>CodewindStates\<close> is imported from
  \<open>./CodewindStates\<close>; its members are the five lifecycle states, all of which the
  class names.
\<close>

datatype CodewindStates = STOPPED | STARTING | STARTED | STOPPING | ERR_CONNECTING

text \<open>
  A \<open>vscode.Uri\<close> is an object, and the class compares two of them with \<open>!==\<close>,
  which tells objects apart and not their texts. The model's value is the reference to
  the object; equality of references is \<open>===\<close>. What text an object holds is not
  something the class reads; where a statement speaks of addresses it takes the texts as
  a function \<open>addr\<close> from references to strings, so that two references may hold one
  address.
\<close>

datatype uri = Ref nat

text \<open>
  Modelled from the spec: the class \<open>Connection\<close> is imported; the manager reads
  only its \<open>url\<close>. The second field tells two connections to one address apart.
\<close>

record Connection =
  url :: uri
  ident :: nat

text \<open>
  What a collaborator throws. Modelled from the spec: \<open>CLIWrapper.isCancellation\<close>
  and \<open>MCUtil.errToString\<close> are imported; a cancellation by the user is the one
  outcome that is told apart, every other error carries its message.
\<close>

datatype err = UserCancelled | Failure string

fun isCancellation :: "err \<Rightarrow> bool" where
  "isCancellation UserCancelled = True"
| "isCancellation (Failure _) = False"

fun errToString :: "err \<Rightarrow> string" where
  "errToString UserCancelled = ''cancelled''"
| "errToString (Failure s) = s"

text \<open>The text shown to the operator: an error's message, or one of the two messages of
  \<open>onTheiaStartTimeout\<close> (the failure message names the seconds elapsed).\<close>

datatype message = ErrText string | FailedToComeUp nat | LongerThanUsual

datatype event =
    Log_d CodewindStates CodewindStates
  | Log_i
  | Log_e
  | OnChange CodewindStates
  | InstallAndStart
  | GetCodewindUrl
  | Stop
  | ConnectLocal uri
  | RemoveConnection Connection
  | Ping
  | SetStatusBarMessage
  | ShowCLIError string
  | ShowErrorMessage message
  | ShowWarningMessage message

record LocalCodewindManager =
  localConnection :: "Connection option"
  state :: CodewindStates
  trace :: "event list"

definition emit :: "event \<Rightarrow> LocalCodewindManager \<Rightarrow> LocalCodewindManager" where
  "emit e m = m\<lparr>trace := trace m @ [e]\<rparr>"

text \<open>The singleton as its field initialisers leave it.\<close>

definition instance_init :: LocalCodewindManager where
  "instance_init = \<lparr>localConnection = None, state = STOPPED, trace = []\<rparr>"

text \<open>The text that \<open>waitForCodewindToStartTheia\<close> parses into a new \<open>Uri\<close> at each call.\<close>

definition CHE_CW_URL :: string where
  "CHE_CW_URL = ''https://localhost:9090''"

subsection \<open>Getters and \<open>changeState\<close>\<close>

definition isStarted :: "LocalCodewindManager \<Rightarrow> bool" where
  "isStarted m = (state m = STARTED \<or> state m = STOPPING)"

definition changeState :: "CodewindStates \<Rightarrow> LocalCodewindManager \<Rightarrow> LocalCodewindManager" where
  "changeState newState m =
     emit (OnChange newState) ((emit (Log_d (state m) newState) m)\<lparr>state := newState\<rparr>)"

subsection \<open>Start, connect, stop, refresh\<close>

text \<open>
  \<open>connect\<close> has one \<open>await\<close>, on \<open>ConnectionManager.connectLocal\<close>. Up to it the
  method makes that call; from it, with what the call answers (a connection or an
  error), it runs to its end. The field is assigned only when the call answers a
  connection, and the state changes in the same piece.
\<close>

definition connect_called :: "uri \<Rightarrow> LocalCodewindManager \<Rightarrow> LocalCodewindManager" where
  "connect_called cwUrl m = emit (ConnectLocal cwUrl) m"

definition connect_connectLocal :: "err + Connection \<Rightarrow> LocalCodewindManager \<Rightarrow> LocalCodewindManager" where
  "connect_connectLocal connectLocal m =
     (case connectLocal of
        Inr c \<Rightarrow> changeState STARTED (m\<lparr>localConnection := Some c\<rparr>)
      | Inl e \<Rightarrow>
          emit (ShowErrorMessage (ErrText (errToString e)))
            (changeState ERR_CONNECTING (emit Log_e m)))"

text \<open>\<open>connect\<close> from call to return, as for a caller that awaits it.\<close>

definition connect :: "uri \<Rightarrow> err + Connection \<Rightarrow> LocalCodewindManager \<Rightarrow> LocalCodewindManager" where
  "connect cwUrl connectLocal m = connect_connectLocal connectLocal (connect_called cwUrl m)"

text \<open>
  \<open>startCodewindInner\<close>: \<open>installAndStart\<close> is what the install-and-start call throws,
  if anything; \<open>getCodewindUrl\<close> is an error, no URL, or a URL. The result is the URL
  or the error thrown, beside the manager as the method leaves it.
\<close>

definition startCodewindInner ::
  "err option \<Rightarrow> err + uri option \<Rightarrow> LocalCodewindManager \<Rightarrow> LocalCodewindManager \<times> (err + uri)" where
  "startCodewindInner installAndStart getCodewindUrl m =
     (let m1 = emit InstallAndStart m in
      case installAndStart of
        Some e \<Rightarrow> (m1, Inl e)
      | None \<Rightarrow>
          (let m2 = emit GetCodewindUrl m1 in
           case getCodewindUrl of
             Inr (Some cwUrl) \<Rightarrow> (emit Log_i m2, Inr cwUrl)
           | Inr None \<Rightarrow>
               (changeState ERR_CONNECTING (emit Log_e m2),
                Inl (Failure ''Could not determine Codewind URL''))
           | Inl e \<Rightarrow> (changeState ERR_CONNECTING (emit Log_e m2), Inl e)))"

text \<open>
  \<open>startCodewind\<close> from call to return. Its last statement is \<open>this.connect(cwUrl)\<close>
  with no \<open>await\<close>: \<open>connect\<close> runs up to its own \<open>await\<close>, and \<open>startCodewind\<close>
  returns with the rest of \<open>connect\<close> pending. The second component of the result is
  the URL of that pending \<open>connect\<close>, if there is one; its rest is
  \<open>connect_connectLocal\<close>, run whenever \<open>connectLocal\<close> answers.
\<close>

definition startCodewind ::
  "err option \<Rightarrow> err + uri option \<Rightarrow> LocalCodewindManager \<Rightarrow> LocalCodewindManager \<times> uri option" where
  "startCodewind installAndStart getCodewindUrl m =
     (case startCodewindInner installAndStart getCodewindUrl m of
        (m1, Inl e) \<Rightarrow>
          (if \<not> isCancellation e then emit (ShowCLIError (errToString e)) m1 else m1, None)
      | (m1, Inr cwUrl) \<Rightarrow> (connect_called cwUrl m1, Some cwUrl))"

text \<open>
  \<open>stopCodewind\<close>: \<open>stop\<close> is what \<open>CLILifecycleWrapper.stop\<close> throws, if anything.
  The method has no handler, so the error leaves it before the assignment; the second
  component of the result is the error the caller sees.
\<close>

definition stopCodewind :: "err option \<Rightarrow> LocalCodewindManager \<Rightarrow> LocalCodewindManager \<times> err option" where
  "stopCodewind stop m =
     (let m1 = emit Stop m in
      case stop of
        Some e \<Rightarrow> (m1, Some e)
      | None \<Rightarrow> (m1\<lparr>localConnection := None\<rparr>, None))"

text \<open>
  \<open>refresh\<close>: the result is the boolean returned, or the error of the URL query, which
  the method does not catch. The test \<open>cwUrl !== this.localConnection.url\<close> is on
  references. \<open>refresh\<close> awaits its \<open>connect\<close>.
\<close>

definition refresh ::
  "err + uri option \<Rightarrow> err + Connection \<Rightarrow> LocalCodewindManager \<Rightarrow> LocalCodewindManager \<times> (err + bool)" where
  "refresh getCodewindUrl connectLocal m =
     (let m1 = emit GetCodewindUrl m in
      case getCodewindUrl of
        Inl e \<Rightarrow> (m1, Inl e)
      | Inr cwUrl \<Rightarrow>
          (case (localConnection m1, cwUrl) of
             (Some c, Some u) \<Rightarrow>
               (if u \<noteq> url c
                then (connect u connectLocal (emit (RemoveConnection c) m1), Inr True)
                else (m1, Inr False))
           | _ \<Rightarrow> (m1, Inr False)))"

subsection \<open>Waiting for an externally started Codewind\<close>

definition onTheiaStartTimeout :: "bool \<Rightarrow> nat \<Rightarrow> LocalCodewindManager \<Rightarrow> LocalCodewindManager" where
  "onTheiaStartTimeout failure secsElapsed m =
     (if failure then emit (ShowErrorMessage (FailedToComeUp secsElapsed)) m
      else emit (ShowWarningMessage LongerThanUsual) m)"

text \<open>
  The source fixes \<open>timeoutS = 180\<close> and \<open>delayS = 2\<close>; the polling code below takes
  them as arguments so that other budgets can be stated, and the method itself is its
  instance at the two constants. A JavaScript number is modelled as a rational, which is
  exact for quotients of small integers such as these; the quotient is one only for
  \<open>delayS > 0\<close>, which every statement about other budgets assumes.
  \<open>Math.round\<close> rounds a half upwards.
\<close>

definition timeoutS :: nat where "timeoutS = 180"
definition delayS :: nat where "delayS = 2"

definition maxTries :: "nat \<Rightarrow> nat \<Rightarrow> rat" where
  "maxTries tS dS = of_nat tS / of_nat dS"

definition Math_round :: "rat \<Rightarrow> int" where
  "Math_round x = \<lfloor>x + 1 / 2\<rfloor>"

definition longerThanUsualTries :: "nat \<Rightarrow> nat \<Rightarrow> int" where
  "longerThanUsualTries tS dS = Math_round (maxTries tS dS / 2)"

text \<open>
  The interval callback where every probe answers a boolean before the next tick, run
  tick after tick until one of them clears the interval. \<open>ping k\<close> is the answer of
  the \<open>k\<close>-th call of \<open>Requester.ping\<close>. The result is the value the promise resolves
  with, the final \<open>tries\<close>, and the manager. The session with probes that answer late,
  or reject, follows below; this function is that session on the timing described here.
\<close>

function waitingForReadyProm ::
  "nat \<Rightarrow> nat \<Rightarrow> (nat \<Rightarrow> bool) \<Rightarrow> nat \<Rightarrow> LocalCodewindManager \<Rightarrow> bool \<times> nat \<times> LocalCodewindManager" where
  "waitingForReadyProm tS dS ping tries0 m =
     (let tries = tries0 + 1;
          pingResult = ping tries;
          m1 = emit Ping m
      in if pingResult then (True, tries, m1)
         else if of_nat tries > maxTries tS dS then (False, tries, m1)
         else if int tries = longerThanUsualTries tS dS
           then waitingForReadyProm tS dS ping tries (onTheiaStartTimeout False (tries * dS) m1)
         else waitingForReadyProm tS dS ping tries m1)"
  by pat_completeness auto
termination
proof (relation "measure (\<lambda>(tS, dS, ping, tries0, m). nat \<lfloor>maxTries tS dS\<rfloor> - tries0)")
  show "wf (measure (\<lambda>(tS, dS, ping, tries0, m). nat \<lfloor>maxTries tS dS\<rfloor> - tries0))"
    by simp
next
  fix tS dS :: nat and ping :: "nat \<Rightarrow> bool" and tries0 tries :: nat
    and pingResult :: bool and m m1 :: LocalCodewindManager
  assume t: "tries = tries0 + 1" and le: "\<not> maxTries tS dS < of_nat tries"
  from le have "of_int (int tries) \<le> maxTries tS dS" by simp
  then have "int tries \<le> \<lfloor>maxTries tS dS\<rfloor>" by (simp only: le_floor_iff)
  with t have "tries0 < nat \<lfloor>maxTries tS dS\<rfloor>" by linarith
  then show "((tS, dS, ping, tries, onTheiaStartTimeout False (tries * dS) m1),
              (tS, dS, ping, tries0, m)) \<in> measure (\<lambda>(tS, dS, ping, tries0, m). nat \<lfloor>maxTries tS dS\<rfloor> - tries0)"
    using t by simp
  from \<open>tries0 < nat \<lfloor>maxTries tS dS\<rfloor>\<close>
  show "((tS, dS, ping, tries, m1), (tS, dS, ping, tries0, m))
          \<in> measure (\<lambda>(tS, dS, ping, tries0, m). nat \<lfloor>maxTries tS dS\<rfloor> - tries0)"
    using t by simp
qed

declare waitingForReadyProm.simps [simp del]

subsection \<open>The poll session with its timing\<close>

text \<open>
  \<open>setInterval\<close> starts the callback at every tick whether or not the probe of an
  earlier tick has answered; the callback is \<open>async\<close>, counts the tick, calls
  \<open>Requester.ping\<close> and runs its tests only when the probe answers, reading the
  shared counter \<open>tries\<close> as it is then. A probe answers a boolean, or rejects, and
  then the callback ends without any test. The session keeps the counter, whether the
  interval is still set, what the promise has resolved with (the first \<open>resolve\<close>
  counts), and how many callbacks wait for their probe. A waiting callback holds nothing
  of its own, so it does not matter which of them an answer belongs to.
\<close>

datatype answer = Answers bool | Rejects

datatype timing = Tick | Settles answer

record session =
  tries :: nat
  interval :: bool
  resolved :: "bool option"
  waiting :: nat

definition session_init :: session where
  "session_init = \<lparr>tries = 0, interval = True, resolved = None, waiting = 0\<rparr>"

definition resolve :: "bool \<Rightarrow> session \<Rightarrow> session" where
  "resolve b s = (if resolved s = None then s\<lparr>resolved := Some b\<rparr> else s)"

definition clearInterval :: "session \<Rightarrow> session" where
  "clearInterval s = s\<lparr>interval := False\<rparr>"

text \<open>A tick: \<open>tries++\<close> and the call of the probe. A cleared interval does not tick.\<close>

definition on_tick :: "session \<times> LocalCodewindManager \<Rightarrow> session \<times> LocalCodewindManager" where
  "on_tick sm =
     (case sm of (s, m) \<Rightarrow>
        if interval s then (s\<lparr>tries := tries s + 1, waiting := waiting s + 1\<rparr>, emit Ping m)
        else (s, m))"

text \<open>A probe answers and its callback goes on from the \<open>await\<close>. Without a waiting
  callback there is no answer.\<close>

definition on_answer ::
  "nat \<Rightarrow> nat \<Rightarrow> answer \<Rightarrow> session \<times> LocalCodewindManager \<Rightarrow> session \<times> LocalCodewindManager" where
  "on_answer tS dS a sm =
     (case sm of (s, m) \<Rightarrow>
        if waiting s = 0 then (s, m)
        else
          (let s1 = s\<lparr>waiting := waiting s - 1\<rparr> in
           case a of
             Rejects \<Rightarrow> (s1, m)
           | Answers pingResult \<Rightarrow>
               if pingResult then (resolve True (clearInterval s1), m)
               else if of_nat (tries s1) > maxTries tS dS then (resolve False (clearInterval s1), m)
               else if int (tries s1) = longerThanUsualTries tS dS
                 then (s1, onTheiaStartTimeout False (tries s1 * dS) m)
               else (s1, m)))"

fun happens ::
  "nat \<Rightarrow> nat \<Rightarrow> session \<times> LocalCodewindManager \<Rightarrow> timing \<Rightarrow> session \<times> LocalCodewindManager" where
  "happens tS dS sm Tick = on_tick sm"
| "happens tS dS sm (Settles a) = on_answer tS dS a sm"

definition poll ::
  "nat \<Rightarrow> nat \<Rightarrow> timing list \<Rightarrow> session \<times> LocalCodewindManager \<Rightarrow> session \<times> LocalCodewindManager" where
  "poll tS dS timings sm = foldl (happens tS dS) sm timings"

text \<open>The timing in which each probe answers before the next tick.\<close>

definition prompt :: "answer list \<Rightarrow> timing list" where
  "prompt as = concat (map (\<lambda>a. [Tick, Settles a]) as)"

text \<open>
  The rest of \<open>waitForCodewindToStartTheia\<close>: what it does before it waits for the
  promise, the \<open>then\<close> callback, and what it does with the promise's value;
  \<open>cheCwUrl\<close> is the object that \<open>vscode.Uri.parse\<close> answers. The method awaits its
  \<open>connect\<close>, whose two pieces are those of \<open>connect\<close> above.
\<close>

definition waitForCodewindToStartTheia_called :: "LocalCodewindManager \<Rightarrow> LocalCodewindManager" where
  "waitForCodewindToStartTheia_called m =
     emit SetStatusBarMessage (changeState STARTING (emit Log_i m))"

definition waitForCodewindToStartTheia_then :: "bool \<Rightarrow> LocalCodewindManager \<Rightarrow> LocalCodewindManager" where
  "waitForCodewindToStartTheia_then result m = (if result then emit Log_i m else emit Log_e m)"

definition waitForCodewindToStartTheia_resolved ::
  "bool \<Rightarrow> uri \<Rightarrow> LocalCodewindManager \<Rightarrow> LocalCodewindManager" where
  "waitForCodewindToStartTheia_resolved isCodewindUp cheCwUrl m =
     (if \<not> isCodewindUp
      then changeState ERR_CONNECTING (onTheiaStartTimeout True timeoutS m)
      else connect_called cheCwUrl m)"

subsection \<open>The pieces of the other methods, and their interleavings\<close>

text \<open>
  \<open>startCodewind\<close>, \<open>stopCodewind\<close> and \<open>refresh\<close> cut at their \<open>await\<close>s. Each
  piece takes what the awaited call answered.
\<close>

definition startCodewind_called :: "LocalCodewindManager \<Rightarrow> LocalCodewindManager" where
  "startCodewind_called m = emit InstallAndStart m"

definition startCodewind_installAndStart :: "err option \<Rightarrow> LocalCodewindManager \<Rightarrow> LocalCodewindManager" where
  "startCodewind_installAndStart installAndStart m =
     (case installAndStart of
        Some e \<Rightarrow> (if \<not> isCancellation e then emit (ShowCLIError (errToString e)) m else m)
      | None \<Rightarrow> emit GetCodewindUrl m)"

definition startCodewind_getCodewindUrl :: "err + uri option \<Rightarrow> LocalCodewindManager \<Rightarrow> LocalCodewindManager" where
  "startCodewind_getCodewindUrl getCodewindUrl m =
     (case getCodewindUrl of
        Inr (Some cwUrl) \<Rightarrow> connect_called cwUrl (emit Log_i m)
      | Inr None \<Rightarrow>
          (let e = Failure ''Could not determine Codewind URL'';
               m1 = changeState ERR_CONNECTING (emit Log_e m) in
           if \<not> isCancellation e then emit (ShowCLIError (errToString e)) m1 else m1)
      | Inl e \<Rightarrow>
          (let m1 = changeState ERR_CONNECTING (emit Log_e m) in
           if \<not> isCancellation e then emit (ShowCLIError (errToString e)) m1 else m1))"

definition stopCodewind_called :: "LocalCodewindManager \<Rightarrow> LocalCodewindManager" where
  "stopCodewind_called m = emit Stop m"

definition stopCodewind_stop :: "err option \<Rightarrow> LocalCodewindManager \<Rightarrow> LocalCodewindManager" where
  "stopCodewind_stop stop m = (case stop of Some e \<Rightarrow> m | None \<Rightarrow> m\<lparr>localConnection := None\<rparr>)"

definition refresh_called :: "LocalCodewindManager \<Rightarrow> LocalCodewindManager" where
  "refresh_called m = emit GetCodewindUrl m"

definition refresh_getCodewindUrl :: "err + uri option \<Rightarrow> LocalCodewindManager \<Rightarrow> LocalCodewindManager" where
  "refresh_getCodewindUrl getCodewindUrl m =
     (case getCodewindUrl of
        Inl e \<Rightarrow> m
      | Inr cwUrl \<Rightarrow>
          (case (localConnection m, cwUrl) of
             (Some c, Some u) \<Rightarrow> (if u \<noteq> url c then emit (RemoveConnection c) m else m)
           | _ \<Rightarrow> m))"

text \<open>
  A piece of some call of some method, with what it receives. After
  \<open>removeConnection\<close> answers, \<open>refresh\<close> calls \<open>connect\<close>, which is the piece
  \<open>Connect_called\<close>; a tick and a probe's answer touch the manager only by the probe
  call and by the warning.
\<close>

datatype piece =
    StartCodewind_called
  | StartCodewind_installAndStart "err option"
  | StartCodewind_getCodewindUrl "err + uri option"
  | Connect_called uri
  | Connect_connectLocal "err + Connection"
  | StopCodewind_called
  | StopCodewind_stop "err option"
  | Refresh_called
  | Refresh_getCodewindUrl "err + uri option"
  | Theia_called
  | Theia_tick
  | Theia_longerThanUsual nat
  | Theia_then bool
  | Theia_resolved bool uri

fun run_piece :: "LocalCodewindManager \<Rightarrow> piece \<Rightarrow> LocalCodewindManager" where
  "run_piece m StartCodewind_called = startCodewind_called m"
| "run_piece m (StartCodewind_installAndStart i) = startCodewind_installAndStart i m"
| "run_piece m (StartCodewind_getCodewindUrl g) = startCodewind_getCodewindUrl g m"
| "run_piece m (Connect_called u) = connect_called u m"
| "run_piece m (Connect_connectLocal c) = connect_connectLocal c m"
| "run_piece m StopCodewind_called = stopCodewind_called m"
| "run_piece m (StopCodewind_stop s) = stopCodewind_stop s m"
| "run_piece m Refresh_called = refresh_called m"
| "run_piece m (Refresh_getCodewindUrl g) = refresh_getCodewindUrl g m"
| "run_piece m Theia_called = waitForCodewindToStartTheia_called m"
| "run_piece m Theia_tick = emit Ping m"
| "run_piece m (Theia_longerThanUsual secs) = onTheiaStartTimeout False secs m"
| "run_piece m (Theia_then b) = waitForCodewindToStartTheia_then b m"
| "run_piece m (Theia_resolved b u) = waitForCodewindToStartTheia_resolved b u m"


section \<open>Properties\<close>

lemmas method_defs = emit_def changeState_def connect_called_def connect_connectLocal_def
  connect_def startCodewindInner_def startCodewind_def stopCodewind_def refresh_def
  onTheiaStartTimeout_def Let_def

lemmas piece_defs = startCodewind_called_def startCodewind_installAndStart_def
  startCodewind_getCodewindUrl_def stopCodewind_called_def stopCodewind_stop_def
  refresh_called_def refresh_getCodewindUrl_def waitForCodewindToStartTheia_called_def
  waitForCodewindToStartTheia_then_def waitForCodewindToStartTheia_resolved_def

subsection \<open>The state query\<close>

text \<open>
  C9. \<open>isStarted\<close> answers true exactly in the states \<open>STARTED\<close> and \<open>STOPPING\<close>,
  hence false in each of the other three; in \<open>STOPPING\<close> the manager reports itself
  started although its state is not \<open>STARTED\<close>.
\<close>

theorem isStarted_iff:
  "(isStarted m = (state m = STARTED \<or> state m = STOPPING))
   \<and> (isStarted m = (state m \<noteq> STOPPED \<and> state m \<noteq> STARTING \<and> state m \<noteq> ERR_CONNECTING))
   \<and> isStarted (m\<lparr>state := STOPPING\<rparr>) \<and> state (m\<lparr>state := STOPPING\<rparr>) \<noteq> STARTED"
  by (cases "state m") (simp_all add: isStarted_def)

subsection \<open>Start and connect\<close>

text \<open>
  C8. When the launch step of \<open>startCodewind\<close> is cancelled by the user, the method
  returns with the state and the connection as they were, and the only thing it has done
  is the launch call itself: no transition, no message to the operator, and no
  \<open>connect\<close> left pending, whatever the URL query would have answered.
\<close>

theorem startCodewind_cancelled:
  "state (fst (startCodewind (Some UserCancelled) getCodewindUrl m)) = state m
   \<and> localConnection (fst (startCodewind (Some UserCancelled) getCodewindUrl m))
       = localConnection m
   \<and> trace (fst (startCodewind (Some UserCancelled) getCodewindUrl m))
       = trace m @ [InstallAndStart]
   \<and> snd (startCodewind (Some UserCancelled) getCodewindUrl m) = None"
  by (simp add: method_defs)

text \<open>
  When \<open>connectLocal\<close> fails, \<open>connect\<close> changes the state to \<open>ERR_CONNECTING\<close> and
  shows the operator one error message, the error's text; the connection field is not
  assigned, so it holds what it held before the call.
\<close>

lemma connect_failure:
  "state (connect cwUrl (Inl e) m) = ERR_CONNECTING
   \<and> localConnection (connect cwUrl (Inl e) m) = localConnection m
   \<and> trace (connect cwUrl (Inl e) m) =
       trace m @ [ConnectLocal cwUrl, Log_e, Log_d (state m) ERR_CONNECTING,
                  OnChange ERR_CONNECTING, ShowErrorMessage (ErrText (errToString e))]"
  by (simp add: method_defs)

text \<open>
  C6. What the source does where the specification promises that no connection is bound
  after a failed connect. The manager is connected at one address; \<open>refresh\<close> finds
  another, removes the bound connection and cannot connect to the new address. The
  state is \<open>ERR_CONNECTING\<close> and one error is shown, but the connection that was
  removed (once) is still the manager's connection: nothing clears the field.
\<close>

theorem refresh_keeps_removed_connection:
  "localConnection (fst (refresh (Inr (Some (Ref 2))) (Inl (Failure ''refused''))
      (connect (Ref 1) (Inr \<lparr>url = Ref 1, ident = 1\<rparr>) instance_init)))
     = Some \<lparr>url = Ref 1, ident = 1\<rparr>
   \<and> state (fst (refresh (Inr (Some (Ref 2))) (Inl (Failure ''refused''))
      (connect (Ref 1) (Inr \<lparr>url = Ref 1, ident = 1\<rparr>) instance_init)))
     = ERR_CONNECTING
   \<and> count_list (trace (fst (refresh (Inr (Some (Ref 2))) (Inl (Failure ''refused''))
      (connect (Ref 1) (Inr \<lparr>url = Ref 1, ident = 1\<rparr>) instance_init))))
        (RemoveConnection \<lparr>url = Ref 1, ident = 1\<rparr>) = 1
   \<and> count_list (trace (fst (refresh (Inr (Some (Ref 2))) (Inl (Failure ''refused''))
      (connect (Ref 1) (Inr \<lparr>url = Ref 1, ident = 1\<rparr>) instance_init))))
        (ShowErrorMessage (ErrText ''refused'')) = 1"
  by (simp add: method_defs instance_init_def)

subsection \<open>Stop\<close>

text \<open>
  C2, as the source has it. When the collaborator's stop call returns, \<open>stopCodewind\<close>
  clears the connection and leaves the state as it was: the method makes no transition
  of its own. When the stop call throws, the error goes to the caller and both the
  connection and the state are as they were. In either case the stop call is all the
  method does besides.
\<close>

theorem stopCodewind_effect:
  "localConnection (fst (stopCodewind None m)) = None
   \<and> state (fst (stopCodewind None m)) = state m
   \<and> snd (stopCodewind None m) = None
   \<and> localConnection (fst (stopCodewind (Some e) m)) = localConnection m
   \<and> state (fst (stopCodewind (Some e) m)) = state m
   \<and> snd (stopCodewind (Some e) m) = Some e
   \<and> trace (fst (stopCodewind stop m)) = trace m @ [Stop]"
  by (simp add: method_defs split: option.splits)

text \<open>
  C2 as the specification words it fails in both halves: on a manager that a
  \<open>connect\<close> has bound, a stop that succeeds leaves the state \<open>STARTED\<close>, and a stop
  that fails leaves the connection bound.
\<close>

theorem stopCodewind_counterexample:
  "state (fst (stopCodewind None
       (connect (Ref 1) (Inr \<lparr>url = Ref 1, ident = 1\<rparr>) instance_init))) = STARTED
   \<and> localConnection (fst (stopCodewind (Some (Failure ''stop failed''))
       (connect (Ref 1) (Inr \<lparr>url = Ref 1, ident = 1\<rparr>) instance_init)))
      = Some \<lparr>url = Ref 1, ident = 1\<rparr>"
  by (simp add: method_defs instance_init_def)

subsection \<open>Refresh\<close>

text \<open>
  C10. When the URL query of \<open>refresh\<close> answers no URL, the method returns false, with
  the state and the connection as they were, also when a connection is bound; the query
  is the only call it makes, so nothing is removed and nothing connected.
\<close>

theorem refresh_unavailable:
  "snd (refresh (Inr None) connectLocal m) = Inr False
   \<and> state (fst (refresh (Inr None) connectLocal m)) = state m
   \<and> localConnection (fst (refresh (Inr None) connectLocal m)) = localConnection m
   \<and> trace (fst (refresh (Inr None) connectLocal m)) = trace m @ [GetCodewindUrl]"
  by (simp add: method_defs split: option.splits)

text \<open>
  C5, as the source has it. The URL query answers the object \<open>u\<close>, and \<open>addr\<close> gives
  the address each object holds. If a connection is bound and the address of \<open>u\<close>
  differs from the address of its URL, \<open>refresh\<close> returns true, having removed the
  bound connection, once, and called \<open>connect\<close> with \<open>u\<close>; if \<open>connectLocal\<close>
  answers a connection, that one is bound afterwards and the state is \<open>STARTED\<close>.
  If no connection is bound, or \<open>u\<close> is the very URL of the bound connection,
  \<open>refresh\<close> returns false and nothing but the query has happened: the connection and
  the state are as they were. And \<open>refresh\<close> returns true only where a connection was
  bound, which it then removed.
\<close>

theorem refresh_rebinds:
  "(\<forall>c. localConnection m = Some c \<and> addr u \<noteq> addr (url c) \<longrightarrow>
        snd (refresh (Inr (Some u)) connectLocal m) = Inr True
        \<and> fst (refresh (Inr (Some u)) connectLocal m)
          = connect u connectLocal (emit (RemoveConnection c) (emit GetCodewindUrl m))
        \<and> count_list (trace (fst (refresh (Inr (Some u)) connectLocal m))) (RemoveConnection c)
          = count_list (trace m) (RemoveConnection c) + 1
        \<and> localConnection (fst (refresh (Inr (Some u)) (Inr c') m)) = Some c'
        \<and> state (fst (refresh (Inr (Some u)) (Inr c') m)) = STARTED)
   \<and> (localConnection m = None \<or> map_option url (localConnection m) = Some u \<longrightarrow>
        snd (refresh (Inr (Some u)) connectLocal m) = Inr False
        \<and> fst (refresh (Inr (Some u)) connectLocal m) = emit GetCodewindUrl m
        \<and> localConnection (fst (refresh (Inr (Some u)) connectLocal m)) = localConnection m
        \<and> state (fst (refresh (Inr (Some u)) connectLocal m)) = state m)
   \<and> (snd (refresh (Inr (Some u)) connectLocal m) = Inr True \<longrightarrow>
        (\<exists>c. localConnection m = Some c
           \<and> count_list (trace (fst (refresh (Inr (Some u)) connectLocal m))) (RemoveConnection c)
             = count_list (trace m) (RemoveConnection c) + 1))"
  by (cases connectLocal) (auto simp: method_defs split: option.splits)

theorem refresh_rebinds_witness:
  "snd (refresh (Inr (Some (Ref 2))) (Inr \<lparr>url = Ref 2, ident = 2\<rparr>)
          (connect (Ref 1) (Inr \<lparr>url = Ref 1, ident = 1\<rparr>) instance_init)) = Inr True
   \<and> localConnection (fst (refresh (Inr (Some (Ref 2))) (Inr \<lparr>url = Ref 2, ident = 2\<rparr>)
          (connect (Ref 1) (Inr \<lparr>url = Ref 1, ident = 1\<rparr>) instance_init)))
       = Some \<lparr>url = Ref 2, ident = 2\<rparr>
   \<and> snd (refresh (Inr (Some (Ref 1))) (Inr \<lparr>url = Ref 2, ident = 2\<rparr>)
          (connect (Ref 1) (Inr \<lparr>url = Ref 1, ident = 1\<rparr>) instance_init)) = Inr False
   \<and> localConnection (fst (refresh (Inr (Some (Ref 1))) (Inr \<lparr>url = Ref 2, ident = 2\<rparr>)
          (connect (Ref 1) (Inr \<lparr>url = Ref 1, ident = 1\<rparr>) instance_init)))
       = Some \<lparr>url = Ref 1, ident = 1\<rparr>"
proof -
  let ?addr = "\<lambda>r. if r = Ref 1 then ''http://127.0.0.1:10000'' else ''http://127.0.0.1:10001''"
  let ?m = "connect (Ref 1) (Inr \<lparr>url = Ref 1, ident = 1\<rparr>) instance_init"
  have bound: "localConnection ?m = Some \<lparr>url = Ref 1, ident = 1\<rparr>"
    by (simp add: method_defs instance_init_def)
  have differ: "?addr (Ref 2) \<noteq> ?addr (url \<lparr>url = Ref 1, ident = 1\<rparr>)" by simp
  have same: "map_option url (localConnection ?m) = Some (Ref 1)" unfolding bound by simp
  note drift = refresh_rebinds [of ?m ?addr "Ref 2" "Inr \<lparr>url = Ref 2, ident = 2\<rparr>"
      "\<lparr>url = Ref 2, ident = 2\<rparr>", THEN conjunct1, rule_format, OF conjI, OF bound differ]
  note still = refresh_rebinds [of ?m ?addr "Ref 1" "Inr \<lparr>url = Ref 2, ident = 2\<rparr>"
      "\<lparr>url = Ref 2, ident = 2\<rparr>", THEN conjunct2, THEN conjunct1, rule_format, OF disjI2, OF same]
  have a: "snd (refresh (Inr (Some (Ref 2))) (Inr \<lparr>url = Ref 2, ident = 2\<rparr>) ?m) = Inr True"
    using drift by (rule conjunct1)
  have b: "localConnection (fst (refresh (Inr (Some (Ref 2))) (Inr \<lparr>url = Ref 2, ident = 2\<rparr>) ?m))
             = Some \<lparr>url = Ref 2, ident = 2\<rparr>"
    using drift by blast
  have c: "snd (refresh (Inr (Some (Ref 1))) (Inr \<lparr>url = Ref 2, ident = 2\<rparr>) ?m) = Inr False"
    using still by (rule conjunct1)
  have "localConnection (fst (refresh (Inr (Some (Ref 1))) (Inr \<lparr>url = Ref 2, ident = 2\<rparr>) ?m))
             = localConnection ?m"
    using still by blast
  then have d: "localConnection (fst (refresh (Inr (Some (Ref 1))) (Inr \<lparr>url = Ref 2, ident = 2\<rparr>) ?m))
             = Some \<lparr>url = Ref 1, ident = 1\<rparr>"
    unfolding bound .
  from a b c d show ?thesis by (intro conjI)
qed

text \<open>
  C5 as the specification words it fails where the new address cannot be connected to:
  \<open>refresh\<close> returns true and has removed the old connection, yet the connection it
  was given by \<open>connectLocal\<close> is none, and no new connection is bound.
\<close>

theorem refresh_rebinds_counterexample:
  "snd (refresh (Inr (Some (Ref 2))) (Inl (Failure ''refused''))
      (connect (Ref 1) (Inr \<lparr>url = Ref 1, ident = 1\<rparr>) instance_init)) = Inr True
   \<and> localConnection (fst (refresh (Inr (Some (Ref 2))) (Inl (Failure ''refused''))
      (connect (Ref 1) (Inr \<lparr>url = Ref 1, ident = 1\<rparr>) instance_init)))
     = localConnection (connect (Ref 1) (Inr \<lparr>url = Ref 1, ident = 1\<rparr>) instance_init)
   \<and> state (fst (refresh (Inr (Some (Ref 2))) (Inl (Failure ''refused''))
      (connect (Ref 1) (Inr \<lparr>url = Ref 1, ident = 1\<rparr>) instance_init)))
     = ERR_CONNECTING"
  by (simp add: method_defs instance_init_def)

text \<open>
  Where the source and its own comment part: the query answers a new object holding
  the address the bound connection already has, and \<open>refresh\<close>, comparing objects,
  removes the connection and connects again.
\<close>

lemma refresh_same_address_other_object:
  "snd (refresh (Inr (Some (Ref 2))) connectLocal
      (connect (Ref 1) (Inr \<lparr>url = Ref 1, ident = 1\<rparr>) instance_init)) = Inr True"
  by (simp add: method_defs instance_init_def)

subsection \<open>The poll session with prompt probes\<close>

lemma maxTries_nonneg: "0 \<le> maxTries tS dS"
  by (simp add: maxTries_def)

lemma floor_maxTries: "nat \<lfloor>maxTries tS dS\<rfloor> = tS div dS"
  by (simp add: maxTries_def floor_divide_of_nat_eq)

text \<open>Rounding half of the quotient and rounding half of its integer part agree.\<close>

lemma longerThanUsualTries_floor:
  assumes "0 < dS"
  shows "longerThanUsualTries tS dS = Math_round (of_int \<lfloor>maxTries tS dS\<rfloor> / 2)"
proof -
  have a: "maxTries tS dS / 2 + 1 / 2 = of_nat (tS + dS) / of_nat (dS * 2)"
    using assms by (simp add: maxTries_def field_simps)
  have "longerThanUsualTries tS dS = int ((tS + dS) div (dS * 2))"
    unfolding longerThanUsualTries_def Math_round_def a by (rule floor_divide_of_nat_eq)
  also have "(tS + dS) div (dS * 2) = (tS div dS + 1) div 2"
    using assms by (simp add: div_mult2_eq)
  finally have l: "longerThanUsualTries tS dS = int ((tS div dS + 1) div 2)" .
  have b: "of_int \<lfloor>maxTries tS dS\<rfloor> / 2 + 1 / 2 = (of_nat (tS div dS + 1) :: rat) / of_nat 2"
    by (simp add: maxTries_def floor_divide_of_nat_eq field_simps)
  have "Math_round (of_int \<lfloor>maxTries tS dS\<rfloor> / 2) = int ((tS div dS + 1) div 2)"
    unfolding Math_round_def b by (rule floor_divide_of_nat_eq)
  with l show ?thesis by simp
qed

text \<open>An escalation attempt that exists (attempts are counted from one) is within the budget.\<close>

lemma escalation_within_budget:
  assumes "1 \<le> longerThanUsualTries tS dS"
  shows "of_int (longerThanUsualTries tS dS) \<le> maxTries tS dS"
proof -
  let ?M = "maxTries tS dS"
  let ?L = "longerThanUsualTries tS dS"
  have L: "of_int ?L \<le> ?M / 2 + 1 / 2"
    unfolding longerThanUsualTries_def Math_round_def by (rule of_int_floor_le)
  have "(1::rat) \<le> of_int ?L" using assms by simp
  with L have "1 \<le> ?M" by simp
  with L show ?thesis by simp
qed

text \<open>The four ways one tick of the interval can go.\<close>

lemma tick_ready:
  "ping (Suc t) \<Longrightarrow> waitingForReadyProm tS dS ping t m = (True, Suc t, emit Ping m)"
  by (subst waitingForReadyProm.simps) (simp add: Let_def)

lemma tick_timeout:
  "\<not> ping (Suc t) \<Longrightarrow> maxTries tS dS < of_nat (Suc t) \<Longrightarrow>
   waitingForReadyProm tS dS ping t m = (False, Suc t, emit Ping m)"
  by (subst waitingForReadyProm.simps) (simp add: Let_def)

lemma tick_escalate:
  "\<not> ping (Suc t) \<Longrightarrow> \<not> maxTries tS dS < of_nat (Suc t) \<Longrightarrow>
   int (Suc t) = longerThanUsualTries tS dS \<Longrightarrow>
   waitingForReadyProm tS dS ping t m =
     waitingForReadyProm tS dS ping (Suc t) (onTheiaStartTimeout False (Suc t * dS) (emit Ping m))"
  by (subst waitingForReadyProm.simps) (simp add: Let_def)

lemma tick_again:
  "\<not> ping (Suc t) \<Longrightarrow> \<not> maxTries tS dS < of_nat (Suc t) \<Longrightarrow>
   int (Suc t) \<noteq> longerThanUsualTries tS dS \<Longrightarrow>
   waitingForReadyProm tS dS ping t m = waitingForReadyProm tS dS ping (Suc t) (emit Ping m)"
  by (subst waitingForReadyProm.simps) (simp add: Let_def)

lemma within_budget:
  assumes "Suc t \<le> nat \<lfloor>maxTries tS dS\<rfloor>"
  shows "\<not> maxTries tS dS < of_nat (Suc t)"
proof -
  from assms have "int (Suc t) \<le> \<lfloor>maxTries tS dS\<rfloor>" by linarith
  then have "of_int (int (Suc t)) \<le> maxTries tS dS" by (simp only: le_floor_iff)
  then show ?thesis by simp
qed

lemma beyond_budget:
  assumes "t = nat \<lfloor>maxTries tS dS\<rfloor>"
  shows "maxTries tS dS < of_nat (Suc t)"
proof -
  have "maxTries tS dS < of_int (\<lfloor>maxTries tS dS\<rfloor> + 1)"
    using floor_correct [of "maxTries tS dS"] by simp
  also have "\<dots> = of_nat (Suc t)" using assms maxTries_nonneg [of tS dS] by simp
  finally show ?thesis .
qed

lemma count_emit:
  "count_list (trace (emit e m)) x = count_list (trace m) x + (if e = x then 1 else 0)"
  by (simp add: emit_def)

lemma count_warning:
  "count_list (trace (onTheiaStartTimeout False s m)) x
     = count_list (trace m) x + (if x = ShowWarningMessage LongerThanUsual then 1 else 0)"
  by (simp add: onTheiaStartTimeout_def emit_def)

text \<open>No success from some tick on: the session runs to the first attempt beyond the budget.\<close>

lemma never_ready:
  assumes "\<forall>j. t < j \<longrightarrow> \<not> ping j" "t \<le> nat \<lfloor>maxTries tS dS\<rfloor>"
  shows "fst (waitingForReadyProm tS dS ping t m) = False
       \<and> fst (snd (waitingForReadyProm tS dS ping t m)) = nat \<lfloor>maxTries tS dS\<rfloor> + 1
       \<and> count_list (trace (snd (snd (waitingForReadyProm tS dS ping t m)))) Ping
           = count_list (trace m) Ping + (nat \<lfloor>maxTries tS dS\<rfloor> + 1 - t)"
  using assms
proof (induction "nat \<lfloor>maxTries tS dS\<rfloor> - t" arbitrary: t m)
  case 0
  then have t: "t = nat \<lfloor>maxTries tS dS\<rfloor>" by simp
  then have to: "maxTries tS dS < of_nat (Suc t)" by (rule beyond_budget)
  from 0 have np: "\<not> ping (Suc t)" by simp
  have eq: "waitingForReadyProm tS dS ping t m = (False, Suc t, emit Ping m)"
    using np to by (rule tick_timeout)
  show ?case unfolding eq using t by (simp add: count_emit)
next
  case (Suc d)
  then have lt: "Suc t \<le> nat \<lfloor>maxTries tS dS\<rfloor>" and np: "\<not> ping (Suc t)" by auto
  from lt have nt: "\<not> maxTries tS dS < of_nat (Suc t)" by (rule within_budget)
  from Suc.hyps(2) have d: "d = nat \<lfloor>maxTries tS dS\<rfloor> - Suc t" by simp
  have all: "\<forall>j. Suc t < j \<longrightarrow> \<not> ping j" using Suc.prems(1) by auto
  note IH = Suc.hyps(1) [OF d all lt]
  show ?case
  proof (cases "int (Suc t) = longerThanUsualTries tS dS")
    case True
    let ?m' = "onTheiaStartTimeout False (Suc t * dS) (emit Ping m)"
    have eq: "waitingForReadyProm tS dS ping t m = waitingForReadyProm tS dS ping (Suc t) ?m'"
      using np nt True by (rule tick_escalate)
    have c: "count_list (trace ?m') Ping = Suc (count_list (trace m) Ping)"
      by (simp add: count_emit count_warning del: mult_Suc)
    show ?thesis unfolding eq using IH [of ?m'] lt c by (simp del: mult_Suc)
  next
    case False
    have eq: "waitingForReadyProm tS dS ping t m = waitingForReadyProm tS dS ping (Suc t) (emit Ping m)"
      using np nt False by (rule tick_again)
    show ?thesis unfolding eq using IH [of "emit Ping m"] lt by (simp add: count_emit)
  qed
qed

text \<open>
  C3. What the source does where the specification promises a timeout after exactly
  \<open>maxTries\<close> probe calls: the test is \<open>tries > maxTries\<close>, made after the probe of
  the tick, so a probe that never succeeds is called \<open>maxTries + 1\<close> times. With
  \<open>intervalSeconds = 1\<close> and \<open>timeoutSeconds = 10\<close> the session times out after 11
  calls, and with the source's own 180 and 2 after 91, which is 182 seconds.
\<close>

theorem never_ready_probe_calls:
  "\<lfloor>maxTries 10 1\<rfloor> = 10 \<and> \<lfloor>maxTries timeoutS delayS\<rfloor> = 90
   \<and> fst (waitingForReadyProm 10 1 (\<lambda>k. False) 0 instance_init) = False
   \<and> fst (snd (waitingForReadyProm 10 1 (\<lambda>k. False) 0 instance_init)) = 11
   \<and> count_list (trace (snd (snd (waitingForReadyProm 10 1 (\<lambda>k. False) 0 instance_init)))) Ping = 11
   \<and> fst (waitingForReadyProm timeoutS delayS (\<lambda>k. False) 0 instance_init) = False
   \<and> fst (snd (waitingForReadyProm timeoutS delayS (\<lambda>k. False) 0 instance_init)) = 91
   \<and> count_list (trace (snd (snd (waitingForReadyProm timeoutS delayS (\<lambda>k. False) 0 instance_init)))) Ping = 91"
  using never_ready [of 0 "\<lambda>k. False" 10 1 instance_init]
    never_ready [of 0 "\<lambda>k. False" timeoutS delayS instance_init]
  by (simp add: floor_maxTries maxTries_def timeoutS_def delayS_def instance_init_def)

subsection \<open>The poll session with its timing\<close>

lemma poll_Nil: "poll tS dS [] sm = sm"
  by (simp add: poll_def)

lemma poll_Cons: "poll tS dS (x # xs) sm = poll tS dS xs (happens tS dS sm x)"
  by (simp add: poll_def)

lemma poll_append: "poll tS dS (xs @ ys) sm = poll tS dS ys (poll tS dS xs sm)"
  by (simp add: poll_def)

lemma prompt_Nil: "prompt [] = []"
  by (simp add: prompt_def)

lemma prompt_Cons: "prompt (a # as) = Tick # Settles a # prompt as"
  by (simp add: prompt_def)

lemma prompt_append: "prompt (as @ bs) = prompt as @ prompt bs"
  by (simp add: prompt_def)

lemma count_replicate_other: "x \<noteq> y \<Longrightarrow> count_list (replicate n x) y = 0"
  by (induction n) simp_all

text \<open>One tick and the prompt answer of its probe, when the answer is no success and
  the attempt is within the budget: the session has counted the tick and goes on.\<close>

lemma prompt_tick:
  assumes "a \<noteq> Answers True" and "\<not> maxTries tS dS < of_nat (Suc t)"
  shows "happens tS dS (happens tS dS (\<lparr>tries = t, interval = True, resolved = None, waiting = 0\<rparr>, m) Tick)
           (Settles a)
         = (\<lparr>tries = Suc t, interval = True, resolved = None, waiting = 0\<rparr>,
            if a = Answers False \<and> int (Suc t) = longerThanUsualTries tS dS
            then onTheiaStartTimeout False (Suc t * dS) (emit Ping m) else emit Ping m)"
proof (cases a)
  case Rejects
  then show ?thesis by (simp add: on_tick_def on_answer_def)
next
  case (Answers b)
  with assms(1) have "b = False" by simp
  with Answers assms(2) show ?thesis
    by (simp add: on_tick_def on_answer_def del: mult_Suc of_nat_Suc)
qed

text \<open>Prompt probes none of which succeeds, within the budget: the session is unresolved,
  has counted them all, and has called the probe once for each.\<close>

lemma prompt_unready:
  assumes "Answers True \<notin> set as" and "t + length as \<le> nat \<lfloor>maxTries tS dS\<rfloor>"
  shows "fst (poll tS dS (prompt as) (\<lparr>tries = t, interval = True, resolved = None, waiting = 0\<rparr>, m))
           = \<lparr>tries = t + length as, interval = True, resolved = None, waiting = 0\<rparr>
       \<and> count_list (trace (snd (poll tS dS (prompt as)
             (\<lparr>tries = t, interval = True, resolved = None, waiting = 0\<rparr>, m)))) Ping
           = count_list (trace m) Ping + length as"
  using assms
proof (induction as arbitrary: t m)
  case Nil
  then show ?case by (simp add: prompt_Nil poll_Nil)
next
  case (Cons a as)
  from Cons.prems have a: "a \<noteq> Answers True" and rest: "Answers True \<notin> set as"
    and le: "Suc t \<le> nat \<lfloor>maxTries tS dS\<rfloor>" and le': "Suc t + length as \<le> nat \<lfloor>maxTries tS dS\<rfloor>"
    by auto
  from le have nt: "\<not> maxTries tS dS < of_nat (Suc t)" by (rule within_budget)
  let ?m' = "if a = Answers False \<and> int (Suc t) = longerThanUsualTries tS dS
            then onTheiaStartTimeout False (Suc t * dS) (emit Ping m) else emit Ping m"
  have c: "count_list (trace ?m') Ping = Suc (count_list (trace m) Ping)"
    by (simp add: count_emit count_warning del: mult_Suc)
  show ?case
    unfolding prompt_Cons poll_Cons prompt_tick [OF a nt]
    using Cons.IH [OF rest le', of ?m'] c by (simp del: mult_Suc)
qed

text \<open>The same where the escalation attempt is not among them: nothing but the probe
  calls has happened.\<close>

lemma prompt_quiet:
  assumes "Answers True \<notin> set as" and "t + length as \<le> nat \<lfloor>maxTries tS dS\<rfloor>"
    and "int (t + length as) < longerThanUsualTries tS dS \<or> longerThanUsualTries tS dS \<le> int t"
  shows "poll tS dS (prompt as) (\<lparr>tries = t, interval = True, resolved = None, waiting = 0\<rparr>, m)
           = (\<lparr>tries = t + length as, interval = True, resolved = None, waiting = 0\<rparr>,
              m\<lparr>trace := trace m @ replicate (length as) Ping\<rparr>)"
  using assms
proof (induction as arbitrary: t m)
  case Nil
  then show ?case by (simp add: prompt_Nil poll_Nil)
next
  case (Cons a as)
  from Cons.prems have a: "a \<noteq> Answers True" and rest: "Answers True \<notin> set as"
    and le: "Suc t \<le> nat \<lfloor>maxTries tS dS\<rfloor>" and le': "Suc t + length as \<le> nat \<lfloor>maxTries tS dS\<rfloor>"
    and ne: "int (Suc t) \<noteq> longerThanUsualTries tS dS"
    and q: "int (Suc t + length as) < longerThanUsualTries tS dS \<or> longerThanUsualTries tS dS \<le> int (Suc t)"
    by auto
  from le have nt: "\<not> maxTries tS dS < of_nat (Suc t)" by (rule within_budget)
  have m: "(emit Ping m)\<lparr>trace := trace (emit Ping m) @ replicate (length as) Ping\<rparr>
             = m\<lparr>trace := trace m @ replicate (length (a # as)) Ping\<rparr>"
    by (simp add: emit_def)
  show ?case
    unfolding prompt_Cons poll_Cons prompt_tick [OF a nt]
    using Cons.IH [OF rest le' q, of "emit Ping m"] ne m by simp
qed

text \<open>Once the interval is cleared no probe is called any more, and what the promise has
  resolved with stays.\<close>

lemma cleared_happens:
  assumes "\<not> interval s"
  shows "\<not> interval (fst (happens tS dS (s, m) x))
       \<and> count_list (trace (snd (happens tS dS (s, m) x))) Ping = count_list (trace m) Ping
       \<and> (resolved s \<noteq> None \<longrightarrow> resolved (fst (happens tS dS (s, m) x)) = resolved s)"
proof (cases x)
  case Tick
  with assms show ?thesis by (simp add: on_tick_def)
next
  case (Settles a)
  with assms show ?thesis
    by (cases a)
      (auto simp: on_answer_def resolve_def clearInterval_def Let_def count_warning)
qed

lemma cleared_silent:
  assumes "\<not> interval s"
  shows "\<not> interval (fst (poll tS dS timings (s, m)))
       \<and> count_list (trace (snd (poll tS dS timings (s, m)))) Ping = count_list (trace m) Ping
       \<and> (resolved s \<noteq> None \<longrightarrow> resolved (fst (poll tS dS timings (s, m))) = resolved s)"
  using assms
proof (induction timings arbitrary: s m)
  case Nil
  then show ?case by (simp add: poll_Nil)
next
  case (Cons x xs)
  obtain s' m' where h: "happens tS dS (s, m) x = (s', m')" by (cases "happens tS dS (s, m) x")
  from cleared_happens [OF Cons.prems, of tS dS m x] h
  have c: "\<not> interval s'" and p: "count_list (trace m') Ping = count_list (trace m) Ping"
    and r: "resolved s \<noteq> None \<longrightarrow> resolved s' = resolved s"
    by simp_all
  from Cons.IH [OF c, of m'] p r show ?case
    unfolding poll_Cons h by auto
qed

text \<open>
  The function for prompt boolean probes is the session on that timing: run on the
  prompt answers of the probes the function calls, the session ends with the function's
  counter, cleared, resolved with the function's value, and with the function's manager.
\<close>

lemma tries_grow: "t < fst (snd (waitingForReadyProm tS dS ping t m))"
proof (induction "nat \<lfloor>maxTries tS dS\<rfloor> - t" arbitrary: t m rule: less_induct)
  case less
  show ?case
  proof (cases "ping (Suc t)")
    case True
    then show ?thesis by (simp add: tick_ready)
  next
    case np: False
    show ?thesis
    proof (cases "maxTries tS dS < of_nat (Suc t)")
      case True
      with np show ?thesis by (simp add: tick_timeout)
    next
      case nt: False
      then have "of_int (int (Suc t)) \<le> maxTries tS dS" by simp
      then have "int (Suc t) \<le> \<lfloor>maxTries tS dS\<rfloor>" by (simp only: le_floor_iff)
      then have dec: "nat \<lfloor>maxTries tS dS\<rfloor> - Suc t < nat \<lfloor>maxTries tS dS\<rfloor> - t" by linarith
      show ?thesis
      proof (cases "int (Suc t) = longerThanUsualTries tS dS")
        case True
        let ?m' = "onTheiaStartTimeout False (Suc t * dS) (emit Ping m)"
        have eq: "waitingForReadyProm tS dS ping t m = waitingForReadyProm tS dS ping (Suc t) ?m'"
          using np nt True by (rule tick_escalate)
        from less [OF dec, of ?m'] show ?thesis unfolding eq by simp
      next
        case False
        have eq: "waitingForReadyProm tS dS ping t m = waitingForReadyProm tS dS ping (Suc t) (emit Ping m)"
          using np nt False by (rule tick_again)
        from less [OF dec, of "emit Ping m"] show ?thesis unfolding eq by simp
      qed
    qed
  qed
qed

lemma waitingForReadyProm_poll:
  "poll tS dS
     (prompt (map (\<lambda>k. Answers (ping k)) [Suc t..<Suc (fst (snd (waitingForReadyProm tS dS ping t m)))]))
     (\<lparr>tries = t, interval = True, resolved = None, waiting = 0\<rparr>, m)
   = (\<lparr>tries = fst (snd (waitingForReadyProm tS dS ping t m)), interval = False,
       resolved = Some (fst (waitingForReadyProm tS dS ping t m)), waiting = 0\<rparr>,
      snd (snd (waitingForReadyProm tS dS ping t m)))"
proof (induction "nat \<lfloor>maxTries tS dS\<rfloor> - t" arbitrary: t m rule: less_induct)
  case less
  show ?case
  proof (cases "ping (Suc t)")
    case True
    then show ?thesis
      by (simp add: tick_ready prompt_Cons prompt_Nil poll_Cons poll_Nil on_tick_def on_answer_def
          resolve_def clearInterval_def)
  next
    case np: False
    show ?thesis
    proof (cases "maxTries tS dS < of_nat (Suc t)")
      case True
      with np show ?thesis
        by (simp add: tick_timeout prompt_Cons prompt_Nil poll_Cons poll_Nil on_tick_def on_answer_def
            resolve_def clearInterval_def del: of_nat_Suc)
    next
      case nt: False
      then have "of_int (int (Suc t)) \<le> maxTries tS dS" by simp
      then have "int (Suc t) \<le> \<lfloor>maxTries tS dS\<rfloor>" by (simp only: le_floor_iff)
      then have dec: "nat \<lfloor>maxTries tS dS\<rfloor> - Suc t < nat \<lfloor>maxTries tS dS\<rfloor> - t" by linarith
      let ?m' = "if Answers (ping (Suc t)) = Answers False \<and> int (Suc t) = longerThanUsualTries tS dS
            then onTheiaStartTimeout False (Suc t * dS) (emit Ping m) else emit Ping m"
      have eq: "waitingForReadyProm tS dS ping t m = waitingForReadyProm tS dS ping (Suc t) ?m'"
      proof (cases "int (Suc t) = longerThanUsualTries tS dS")
        case True
        with np nt show ?thesis using tick_escalate [of ping t tS dS m] by simp
      next
        case False
        with np nt show ?thesis using tick_again [of ping t tS dS m] by simp
      qed
      have a: "Answers (ping (Suc t)) \<noteq> Answers True" using np by simp
      have "Suc t < fst (snd (waitingForReadyProm tS dS ping (Suc t) ?m'))" by (rule tries_grow)
      then have upt: "[Suc t..<Suc (fst (snd (waitingForReadyProm tS dS ping (Suc t) ?m')))]
          = Suc t # [Suc (Suc t)..<Suc (fst (snd (waitingForReadyProm tS dS ping (Suc t) ?m')))]"
        by (simp add: upt_conv_Cons)
      show ?thesis
        unfolding eq upt list.map prompt_Cons poll_Cons prompt_tick [OF a nt]
        by (rule less [OF dec])
    qed
  qed
qed

text \<open>
  C7, as the source has it. In a poll session with a positive interval: whenever a probe
  answers a success, the session, if it was not resolved before, is resolved ready at
  once, and whatever follows, no probe is called any more. And where every probe
  answers before the next tick, a probe that first succeeds at its \<open>k\<close>-th call, the
  attempt before it being within the budget, resolves the session ready with \<open>tries = k\<close>
  and exactly \<open>k\<close> probe calls made; the probes before it may have answered false or
  rejected.
\<close>

theorem first_success_resolves_ready:
  assumes "0 < dS"
  shows "(0 < waiting s \<longrightarrow>
           resolved (fst (poll tS dS timings (on_answer tS dS (Answers True) (s, m))))
             = Some (case resolved s of None \<Rightarrow> True | Some b \<Rightarrow> b)
           \<and> count_list (trace (snd (poll tS dS timings (on_answer tS dS (Answers True) (s, m))))) Ping
             = count_list (trace m) Ping)
       \<and> (Answers True \<notin> set as \<and> length as \<le> nat \<lfloor>maxTries tS dS\<rfloor> \<longrightarrow>
           fst (poll tS dS (prompt (as @ [Answers True])) (session_init, m))
             = \<lparr>tries = length as + 1, interval = False, resolved = Some True, waiting = 0\<rparr>
           \<and> count_list (trace (snd (poll tS dS (prompt (as @ [Answers True])) (session_init, m)))) Ping
             = count_list (trace m) Ping + length as + 1)"
proof (intro conjI impI)
  assume w: "0 < waiting s"
  let ?s' = "resolve True (clearInterval (s\<lparr>waiting := waiting s - 1\<rparr>))"
  from w have eq: "on_answer tS dS (Answers True) (s, m) = (?s', m)"
    by (simp add: on_answer_def)
  have c: "\<not> interval ?s'" by (simp add: resolve_def clearInterval_def)
  have r: "resolved ?s' = Some (case resolved s of None \<Rightarrow> True | Some b \<Rightarrow> b)"
    by (cases "resolved s") (simp_all add: resolve_def clearInterval_def)
  note after = cleared_silent [OF c, of tS dS timings m]
  from after r
  show "resolved (fst (poll tS dS timings (on_answer tS dS (Answers True) (s, m))))
          = Some (case resolved s of None \<Rightarrow> True | Some b \<Rightarrow> b)"
    unfolding eq by simp
  from after
  show "count_list (trace (snd (poll tS dS timings (on_answer tS dS (Answers True) (s, m))))) Ping
          = count_list (trace m) Ping"
    unfolding eq by simp
next
  assume a: "Answers True \<notin> set as \<and> length as \<le> nat \<lfloor>maxTries tS dS\<rfloor>"
  let ?p = "poll tS dS (prompt as) (session_init, m)"
  from a have "fst ?p = \<lparr>tries = length as, interval = True, resolved = None, waiting = 0\<rparr>
       \<and> count_list (trace (snd ?p)) Ping = count_list (trace m) Ping + length as"
    using prompt_unready [of as 0 tS dS m] by (simp add: session_init_def)
  then have p: "?p = (\<lparr>tries = length as, interval = True, resolved = None, waiting = 0\<rparr>, snd ?p)"
    and n: "count_list (trace (snd ?p)) Ping = count_list (trace m) Ping + length as"
    by (simp_all add: prod_eq_iff)
  have last: "poll tS dS (prompt (as @ [Answers True])) (session_init, m)
      = (\<lparr>tries = length as + 1, interval = False, resolved = Some True, waiting = 0\<rparr>,
         emit Ping (snd ?p))"
    unfolding prompt_append poll_append
    by (subst p)
      (simp add: prompt_Cons prompt_Nil poll_Cons poll_Nil on_tick_def on_answer_def
        resolve_def clearInterval_def)
  show "fst (poll tS dS (prompt (as @ [Answers True])) (session_init, m))
          = \<lparr>tries = length as + 1, interval = False, resolved = Some True, waiting = 0\<rparr>"
    unfolding last by simp
  show "count_list (trace (snd (poll tS dS (prompt (as @ [Answers True])) (session_init, m)))) Ping
          = count_list (trace m) Ping + length as + 1"
    unfolding last using n by (simp add: count_emit)
qed

text \<open>With \<open>intervalSeconds = 1\<close> and \<open>timeoutSeconds = 10\<close> and prompt probes, a probe
  that first succeeds on its sixth call gives ready after exactly six calls; and a
  success that arrives while two more ticks are due leaves the probe uncalled by them.\<close>

theorem first_success_resolves_ready_witness:
  "fst (poll 10 1 (prompt (replicate 5 (Answers False) @ [Answers True])) (session_init, instance_init))
     = \<lparr>tries = 6, interval = False, resolved = Some True, waiting = 0\<rparr>
   \<and> count_list (trace (snd (poll 10 1 (prompt (replicate 5 (Answers False) @ [Answers True]))
        (session_init, instance_init)))) Ping = 6
   \<and> resolved (fst (poll 10 1 [Tick, Tick]
        (on_answer 10 1 (Answers True)
           (\<lparr>tries = 6, interval = True, resolved = None, waiting = 1\<rparr>, instance_init))))
       = Some True
   \<and> count_list (trace (snd (poll 10 1 [Tick, Tick]
        (on_answer 10 1 (Answers True)
           (\<lparr>tries = 6, interval = True, resolved = None, waiting = 1\<rparr>, instance_init))))) Ping
       = 0"
proof -
  have d: "(0::nat) < 1" by simp
  note inst = first_success_resolves_ready [OF d, of
      "\<lparr>tries = 6, interval = True, resolved = None, waiting = 1\<rparr>" 10 "[Tick, Tick]"
      instance_init "replicate 5 (Answers False)"]
  have h: "Answers True \<notin> set (replicate 5 (Answers False))
      \<and> length (replicate 5 (Answers False)) \<le> nat \<lfloor>maxTries 10 1\<rfloor>"
    by (simp add: maxTries_def)
  have w: "0 < waiting \<lparr>tries = 6, interval = True, resolved = None, waiting = 1\<rparr>" by simp
  from inst [THEN conjunct2, rule_format, OF h] inst [THEN conjunct1, rule_format, OF w]
  show ?thesis by (simp add: instance_init_def)
qed

text \<open>
  C7 as the specification words it fails where a probe answers late. With
  \<open>intervalSeconds = 1\<close> and \<open>timeoutSeconds = 10\<close>, five prompt failures, and a sixth
  probe whose success arrives only after the seventh and eighth tick: the session is
  ready after eight probe calls, with \<open>tries = 8\<close>.
\<close>

theorem first_success_resolves_ready_counterexample:
  "resolved (fst (poll 10 1
       (prompt (replicate 5 (Answers False)) @ [Tick, Tick, Tick, Settles (Answers True)])
       (session_init, instance_init))) = Some True
   \<and> tries (fst (poll 10 1
       (prompt (replicate 5 (Answers False)) @ [Tick, Tick, Tick, Settles (Answers True)])
       (session_init, instance_init))) = 8
   \<and> count_list (trace (snd (poll 10 1
       (prompt (replicate 5 (Answers False)) @ [Tick, Tick, Tick, Settles (Answers True)])
       (session_init, instance_init)))) Ping = 8"
proof -
  let ?p = "poll 10 1 (prompt (replicate 5 (Answers False))) (session_init, instance_init)"
  have "fst ?p = \<lparr>tries = 5, interval = True, resolved = None, waiting = 0\<rparr>
       \<and> count_list (trace (snd ?p)) Ping = 5"
    using prompt_unready [of "replicate 5 (Answers False)" 0 10 1 instance_init]
    by (simp add: session_init_def maxTries_def instance_init_def)
  then have p: "?p = (\<lparr>tries = 5, interval = True, resolved = None, waiting = 0\<rparr>, snd ?p)"
    and n: "count_list (trace (snd ?p)) Ping = 5"
    by (simp_all add: prod_eq_iff)
  have last: "poll 10 1
       (prompt (replicate 5 (Answers False)) @ [Tick, Tick, Tick, Settles (Answers True)])
       (session_init, instance_init)
      = (\<lparr>tries = 8, interval = False, resolved = Some True, waiting = 2\<rparr>,
         emit Ping (emit Ping (emit Ping (snd ?p))))"
    unfolding poll_append
    by (subst p)
      (simp add: poll_Cons poll_Nil on_tick_def on_answer_def resolve_def clearInterval_def)
  show ?thesis unfolding last using n by (simp add: count_emit)
qed

text \<open>
  C4. What the source does where the specification promises the escalation at most once
  in a session. With the source's 180 and 2 the escalation attempt is 45 (the rounding
  is upwards: for 10 and 2 it is 3). Probes 1 to 43 fail promptly; probe 44 is slow, so
  that tick 45 comes first; probe 45 fails, and its callback shows the warning; then
  probe 44 fails, and its callback, reading the shared counter at 45, shows the warning
  a second time. And where probe 45 rejects, every other probe failing promptly, its
  callback ends before the test and the warning is never shown in the session, which
  times out after 91 calls.
\<close>

theorem escalation_shown_twice:
  "longerThanUsualTries timeoutS delayS = 45
   \<and> longerThanUsualTries 10 2 = 3
   \<and> count_list (trace (snd (poll timeoutS delayS
        (prompt (replicate 43 (Answers False))
           @ [Tick, Tick, Settles (Answers False), Settles (Answers False)])
        (session_init, instance_init)))) (ShowWarningMessage LongerThanUsual) = 2
   \<and> fst (poll timeoutS delayS
        (prompt (replicate 43 (Answers False))
           @ [Tick, Tick, Settles (Answers False), Settles (Answers False)])
        (session_init, instance_init))
       = \<lparr>tries = 45, interval = True, resolved = None, waiting = 0\<rparr>
   \<and> count_list (trace (snd (poll timeoutS delayS
        (prompt (replicate 44 (Answers False) @ [Rejects] @ replicate 46 (Answers False)))
        (session_init, instance_init)))) (ShowWarningMessage LongerThanUsual) = 0
   \<and> fst (poll timeoutS delayS
        (prompt (replicate 44 (Answers False) @ [Rejects] @ replicate 46 (Answers False)))
        (session_init, instance_init))
       = \<lparr>tries = 91, interval = False, resolved = Some False, waiting = 0\<rparr>"
proof -
  have L: "longerThanUsualTries 180 2 = 45"
    by (simp add: longerThanUsualTries_def Math_round_def maxTries_def floor_eq_iff)
  have L': "longerThanUsualTries 10 2 = 3"
    by (simp add: longerThanUsualTries_def Math_round_def maxTries_def floor_eq_iff)
  have M: "nat \<lfloor>maxTries 180 2\<rfloor> = 90" by (simp add: maxTries_def)
  have W: "Ping \<noteq> ShowWarningMessage LongerThanUsual" by simp
  have quiet: "poll 180 2 (prompt (replicate n (Answers False)))
                 (\<lparr>tries = t, interval = True, resolved = None, waiting = 0\<rparr>, m)
               = (\<lparr>tries = t + n, interval = True, resolved = None, waiting = 0\<rparr>,
                  m\<lparr>trace := trace m @ replicate n Ping\<rparr>)"
    if "t + n \<le> 90" and "t + n < 45 \<or> 45 \<le> t" for t n m
  proof -
    have a: "Answers True \<notin> set (replicate n (Answers False))" by simp
    have b: "t + length (replicate n (Answers False)) \<le> nat \<lfloor>maxTries 180 2\<rfloor>"
      using that(1) M by simp
    have c: "int (t + length (replicate n (Answers False))) < longerThanUsualTries 180 2
             \<or> longerThanUsualTries 180 2 \<le> int t"
      using that(2) unfolding L by auto
    from prompt_quiet [OF a b c, of m] show ?thesis by simp
  qed
  have twice: "poll 180 2
        (prompt (replicate 43 (Answers False))
           @ [Tick, Tick, Settles (Answers False), Settles (Answers False)])
        (session_init, instance_init)
      = (\<lparr>tries = 45, interval = True, resolved = None, waiting = 0\<rparr>,
         \<lparr>localConnection = None, state = STOPPED,
          trace = replicate 43 Ping @ [Ping, Ping, ShowWarningMessage LongerThanUsual,
                    ShowWarningMessage LongerThanUsual]\<rparr>)"
    unfolding poll_append session_init_def
    by (subst quiet)
      (simp_all add: poll_Cons poll_Nil on_tick_def on_answer_def L maxTries_def
        onTheiaStartTimeout_def emit_def instance_init_def)
  have never: "poll 180 2
        (prompt (replicate 44 (Answers False) @ [Rejects] @ replicate 46 (Answers False)))
        (session_init, instance_init)
      = (\<lparr>tries = 91, interval = False, resolved = Some False, waiting = 0\<rparr>,
         \<lparr>localConnection = None, state = STOPPED,
          trace = replicate 44 Ping @ [Ping] @ replicate 45 Ping @ [Ping]\<rparr>)"
  proof -
    have split: "replicate 46 (Answers False) = replicate 45 (Answers False) @ [Answers False]"
      using replicate_add [of 45 1 "Answers False"] by simp
    show ?thesis
      unfolding split prompt_append poll_append session_init_def
      apply (subst quiet)
        apply simp
       apply simp
      apply (simp add: prompt_Cons prompt_Nil poll_Cons poll_Nil on_tick_def on_answer_def)
      apply (subst quiet)
        apply simp
       apply simp
      apply (simp add: prompt_Cons prompt_Nil poll_Cons poll_Nil on_tick_def on_answer_def
          maxTries_def resolve_def clearInterval_def emit_def instance_init_def)
      done
  qed
  show ?thesis
    unfolding timeoutS_def delayS_def twice never
    using L L' by (simp add: count_replicate_other [OF W])
qed

subsection \<open>The state and the connection over interleavings\<close>

text \<open>The methods from call to return are sequences of their pieces; the \<open>connect\<close>
  that \<open>startCodewind\<close> leaves pending has the piece \<open>Connect_connectLocal\<close> still to
  come.\<close>

lemma connect_pieces:
  "connect u c m = foldl run_piece m [Connect_called u, Connect_connectLocal c]"
  by (simp add: connect_def)

lemma startCodewind_pieces:
  "fst (startCodewind i g m) = foldl run_piece m
     (StartCodewind_called # StartCodewind_installAndStart i #
        (case i of None \<Rightarrow> [StartCodewind_getCodewindUrl g] | Some e \<Rightarrow> []))"
  by (cases i; cases g)
    (auto simp: method_defs piece_defs split: option.splits)

lemma stopCodewind_pieces:
  "fst (stopCodewind s m) = foldl run_piece m [StopCodewind_called, StopCodewind_stop s]"
  by (cases s) (simp_all add: method_defs piece_defs)

lemma refresh_pieces:
  "fst (refresh g c m) = foldl run_piece m
     (Refresh_called # Refresh_getCodewindUrl g #
        (case g of
           Inr (Some u) \<Rightarrow>
             if snd (refresh g c m) = Inr True then [Connect_called u, Connect_connectLocal c] else []
         | _ \<Rightarrow> []))"
  by (cases g; cases c) (auto simp: method_defs piece_defs split: option.splits)

lemma happens_pieces:
  "snd (happens tS dS (s, m) x) = m
   \<or> snd (happens tS dS (s, m) x) = run_piece m Theia_tick
   \<or> snd (happens tS dS (s, m) x) = run_piece m (Theia_longerThanUsual (tries s * dS))"
proof (cases x)
  case Tick
  then show ?thesis by (simp add: on_tick_def)
next
  case (Settles a)
  then show ?thesis by (cases a) (simp_all add: on_answer_def Let_def)
qed






end
